theory Spec2Isabelle
  imports Complex_Main "HOL-Library.Multiset" "HOL-Library.Char_ord" "HOL-Library.List_Lexorder"
begin

text \<open>
  A disaster-management application keeps an append-only log of status reports for its
  residents, shows on its dashboard the latest status of each resident under the active
  disaster event, and mirrors residents and evacuation centers in the browser for use
  without a network. This theory models the three parts of the TypeScript source that do
  this: \<^verbatim>\<open>fetchData\<close> of the dashboard page, the IndexedDB wrapper
  \<^verbatim>\<open>dbService\<close>, and the status update page with \<^verbatim>\<open>loadInitialData\<close> and
  \<^verbatim>\<open>handleUpdateStatus\<close>. The definitions follow the source, which is quoted before
  each of them; the properties come after all definitions.
\<close>

section \<open>Data model\<close>

text \<open>
  \<^verbatim>\<open>types.ts\<close>:
  \<^verbatim>\<open>export type ResidentStatus = 'Safe' | 'Evacuated' | 'Injured' | 'Missing' | 'Deceased' | 'Unknown';\<close>
\<close>

datatype ResidentStatus = Safe | Evacuated | Injured | Missing | Deceased | Unknown

text \<open>
  The columns that \<^verbatim>\<open>fetchData\<close> selects from \<^verbatim>\<open>resident_status_log\<close>
  (\<^verbatim>\<open>type LogEntry = { resident_id: string; status: ResidentStatus; timestamp: string;
  evac_center_id: string | null; }\<close>), and the whole row of the table, which adds the
  serial \<^verbatim>\<open>id\<close> and the \<^verbatim>\<open>event_id\<close>. \<^verbatim>\<open>null\<close> is \<open>None\<close>.
\<close>

record LogEntry =
  resident_id :: string
  status :: ResidentStatus
  timestamp :: int
  evac_center_id :: "string option"

record LogRow = LogEntry +
  log_id :: int
  event_id :: string

text \<open>
  The column \<^verbatim>\<open>timestamp\<close> is a \<^verbatim>\<open>timestamptz\<close> that the database fills in on
  insert. The source compares two of them as \<^verbatim>\<open>new Date(t).getTime()\<close>, the
  milliseconds since the epoch; the field holds that number.
\<close>

text \<open>
  A JavaScript \<^verbatim>\<open>Map\<close> keeps its keys in insertion order, and \<^verbatim>\<open>set\<close> on a key
  that is present replaces the value where it stands: an association list.
\<close>

type_synonym ('k, 'v) js_map = "('k \<times> 'v) list"

fun map_set :: "'k \<Rightarrow> 'v \<Rightarrow> ('k, 'v) js_map \<Rightarrow> ('k, 'v) js_map" where
  "map_set k v [] = [(k, v)]"
| "map_set k v (p # m) = (if fst p = k then (k, v) # m else p # map_set k v m)"

definition map_get :: "('k, 'v) js_map \<Rightarrow> 'k \<Rightarrow> 'v option" where
  "map_get m k = map_of m k"

definition map_values :: "('k, 'v) js_map \<Rightarrow> 'v list" where
  "map_values m = map snd m"

section \<open>Status resolution (DashboardPage.fetchData)\<close>

subsection \<open>Step 3: the latest status of each resident\<close>

text \<open>
  \<^verbatim>\<open>
  const latestStatusMap = new Map<string, LogEntry>();
  logs!.forEach((log: LogEntry) => {
      const existing = latestStatusMap.get(log.resident_id);
      if (!existing || new Date(log.timestamp).getTime() > new Date(existing.timestamp).getTime()) {
          latestStatusMap.set(log.resident_id, log);
      }
  });
  \<close>
\<close>

definition latest_step :: "(string, LogEntry) js_map \<Rightarrow> LogEntry \<Rightarrow> (string, LogEntry) js_map" where
  "latest_step m lg =
     (case map_get m (resident_id lg) of
        None \<Rightarrow> map_set (resident_id lg) lg m
      | Some existing \<Rightarrow>
          if timestamp lg > timestamp existing
          then map_set (resident_id lg) lg m
          else m)"

definition latestStatusMap :: "LogEntry list \<Rightarrow> (string, LogEntry) js_map" where
  "latestStatusMap logs = foldl latest_step [] logs"

subsection \<open>Step 4: counts and groups\<close>

text \<open>
  \<^verbatim>\<open>newStats\<close> and \<^verbatim>\<open>newGroups\<close> are objects whose keys are the six status names,
  \<^verbatim>\<open>newEvacGroups\<close> an object whose keys are evacuation-center ids. An object lists its
  (non-numeric) keys in insertion order, as a \<^verbatim>\<open>Map\<close> does, so the same type models it.
\<close>

definition initial_stats :: "(ResidentStatus, nat) js_map" where
  "initial_stats = [(Safe, 0), (Evacuated, 0), (Injured, 0), (Missing, 0), (Deceased, 0), (Unknown, 0)]"

definition initial_groups :: "(ResidentStatus, string list) js_map" where
  "initial_groups = [(Safe, []), (Evacuated, []), (Injured, []), (Missing, []), (Deceased, []), (Unknown, [])]"

text \<open>A \<^verbatim>\<open>string | null\<close> in a condition: \<^verbatim>\<open>null\<close> and the empty string are falsy.\<close>

fun truthy :: "string option \<Rightarrow> bool" where
  "truthy None = False"
| "truthy (Some s) = (s \<noteq> [])"

text \<open>\<^verbatim>\<open>if (!obj[k]) obj[k] = []; obj[k].push(v)\<close> (an array, even empty, is truthy).\<close>

definition push_to :: "'k \<Rightarrow> 'v \<Rightarrow> ('k, 'v list) js_map \<Rightarrow> ('k, 'v list) js_map" where
  "push_to k v m =
     (case map_get m k of
        None \<Rightarrow> map_set k [v] m
      | Some xs \<Rightarrow> map_set k (xs @ [v]) m)"

record tally =
  newStats :: "(ResidentStatus, nat) js_map"
  newGroups :: "(ResidentStatus, string list) js_map"
  newEvacGroups :: "(string, string list) js_map"

text \<open>
  \<^verbatim>\<open>
  latestLogs.forEach(log => {
      if (newStats[log.status] !== undefined) {
          newStats[log.status]++;
      }
      if (!newGroups[log.status]) newGroups[log.status] = [];
      newGroups[log.status].push(log.resident_id);
      if (log.status === 'Evacuated' && log.evac_center_id) {
          if (!newEvacGroups[log.evac_center_id]) {
              newEvacGroups[log.evac_center_id] = [];
          }
          newEvacGroups[log.evac_center_id].push(log.resident_id);
      }
  });
  \<close>
\<close>

definition tally_step :: "tally \<Rightarrow> LogEntry \<Rightarrow> tally" where
  "tally_step t lg =
     \<lparr> newStats =
         (case map_get (newStats t) (status lg) of
            Some n \<Rightarrow> map_set (status lg) (n + 1) (newStats t)
          | None \<Rightarrow> newStats t),
       newGroups = push_to (status lg) (resident_id lg) (newGroups t),
       newEvacGroups =
         (if status lg = Evacuated \<and> truthy (evac_center_id lg)
          then push_to (the (evac_center_id lg)) (resident_id lg) (newEvacGroups t)
          else newEvacGroups t) \<rparr>"

definition tally_logs :: "LogEntry list \<Rightarrow> tally" where
  "tally_logs latestLogs =
     foldl tally_step \<lparr> newStats = initial_stats, newGroups = initial_groups, newEvacGroups = [] \<rparr> latestLogs"

text \<open>
  \<^verbatim>\<open>
  const knownIds = new Set(latestLogs.map(l => l.resident_id));
  const unknownIds = residentIds.filter(id => !knownIds.has(id));
  newStats.Unknown = unknownIds.length;
  newGroups.Unknown = unknownIds;
  \<close>
\<close>

definition unknownIds :: "string list \<Rightarrow> LogEntry list \<Rightarrow> string list" where
  "unknownIds residentIds latestLogs =
     filter (\<lambda>i. i \<notin> set (map resident_id latestLogs)) residentIds"

definition with_unknowns :: "string list \<Rightarrow> LogEntry list \<Rightarrow> tally \<Rightarrow> tally" where
  "with_unknowns residentIds latestLogs t =
     t \<lparr> newStats := map_set Unknown (length (unknownIds residentIds latestLogs)) (newStats t),
         newGroups := map_set Unknown (unknownIds residentIds latestLogs) (newGroups t) \<rparr>"

subsection \<open>Step 5: evacuation-center statistics\<close>

text \<open>
  The columns \<^verbatim>\<open>id, name, capacity\<close> of \<^verbatim>\<open>evacuation_centers\<close>; \<^verbatim>\<open>capacity\<close> is a
  \<^verbatim>\<open>number\<close> that the center form reads with \<^verbatim>\<open>parseInt(value, 10) || 0\<close>, an integer
  of either sign. A row of the chart adds the occupancy.
\<close>

record Center =
  center_id :: string
  name :: string
  capacity :: int

record EvacStat = Center +
  occupancy :: nat

text \<open>
  \<^verbatim>\<open>
  const occupancyMap = new Map<string, number>();
  latestLogs.forEach(log => {
      if(log.status === 'Evacuated' && log.evac_center_id) {
          occupancyMap.set(log.evac_center_id, (occupancyMap.get(log.evac_center_id) || 0) + 1);
      }
  });
  \<close>
\<close>

definition or_zero :: "nat option \<Rightarrow> nat" where
  "or_zero v = (case v of None \<Rightarrow> 0 | Some n \<Rightarrow> n)"

definition occupancy_step :: "(string, nat) js_map \<Rightarrow> LogEntry \<Rightarrow> (string, nat) js_map" where
  "occupancy_step m lg =
     (if status lg = Evacuated \<and> truthy (evac_center_id lg)
      then map_set (the (evac_center_id lg)) (or_zero (map_get m (the (evac_center_id lg))) + 1) m
      else m)"

definition occupancyMap :: "LogEntry list \<Rightarrow> (string, nat) js_map" where
  "occupancyMap latestLogs = foldl occupancy_step [] latestLogs"

text \<open>
  \<^verbatim>\<open>
  const pA = a.capacity > 0 ? a.occupancy / a.capacity : 0;
  const pB = b.capacity > 0 ? b.occupancy / b.capacity : 0;
  return pB - pA;
  \<close>
  The quotient is taken in the rationals; the source computes it in double precision.
\<close>

definition pct :: "EvacStat \<Rightarrow> rat" where
  "pct a = (if capacity a > 0 then of_nat (occupancy a) / of_int (capacity a) else 0)"

definition by_pct_desc :: "EvacStat \<Rightarrow> EvacStat \<Rightarrow> rat" where
  "by_pct_desc a b = pct b - pct a"

text \<open>
  \<^verbatim>\<open>Array.prototype.sort(compare)\<close> is stable: \<open>a\<close> stays before \<open>b\<close> unless
  \<open>compare a b > 0\<close>. Insertion from the right gives that order.
\<close>

fun insert_sorted :: "('a \<Rightarrow> 'a \<Rightarrow> rat) \<Rightarrow> 'a \<Rightarrow> 'a list \<Rightarrow> 'a list" where
  "insert_sorted compare x [] = [x]"
| "insert_sorted compare x (y # ys) =
     (if compare x y \<le> 0 then x # y # ys else y # insert_sorted compare x ys)"

definition array_sort :: "('a \<Rightarrow> 'a \<Rightarrow> rat) \<Rightarrow> 'a list \<Rightarrow> 'a list" where
  "array_sort compare xs = foldr (insert_sorted compare) xs []"

text \<open>
  \<^verbatim>\<open>
  const evacChartData = centers.map(center => ({
      id: center.id,
      name: center.name,
      occupancy: occupancyMap.get(center.id) || 0,
      capacity: center.capacity
  })).filter((d: { capacity: number; occupancy: number }) => d.capacity > 0 || d.occupancy > 0);
  evacChartData.sort(...)
  \<close>
\<close>

definition chart_row :: "(string, nat) js_map \<Rightarrow> Center \<Rightarrow> EvacStat" where
  "chart_row occ center =
     \<lparr> center_id = center_id center, name = name center, capacity = capacity center,
       occupancy = or_zero (map_get occ (center_id center)) \<rparr>"

definition evacChartData :: "Center list \<Rightarrow> LogEntry list \<Rightarrow> EvacStat list" where
  "evacChartData centers latestLogs =
     array_sort by_pct_desc
       (filter (\<lambda>d. capacity d > 0 \<or> occupancy d > 0)
          (map (chart_row (occupancyMap latestLogs)) centers))"

subsection \<open>The remote store, as the queries of fetchData read it\<close>

datatype EventStatus = Active | Monitoring | Resolved

record DisasterEvent =
  ev_id :: string
  ev_name :: string
  ev_status :: EventStatus

record ResidentRow =
  res_id :: string
  municipality :: string
  barangay :: string
  head_of_family_name :: "string option"

text \<open>
  The hosted tables, with the columns that the pages read, and for each query whether it
  comes back with an error (the network is down, the service refuses). A query returns
  every row that matches (a row limit of the service is not modelled), and without
  \<^verbatim>\<open>order\<close> it returns them in the order of the table.
\<close>

record remote =
  events :: "DisasterEvent list"
  events_error :: bool
  residents :: "ResidentRow list"
  residents_error :: bool
  resident_status_log :: "LogRow list"
  log_error :: bool
  evacuation_centers :: "Center list"
  centers_error :: bool

text \<open>
  \<^verbatim>\<open>supabase.from('events').select('*').eq('status', 'Active').limit(1).single()\<close>:
  \<^verbatim>\<open>single\<close> reports an error when no row is left. \<open>None\<close> is
  \<^verbatim>\<open>eventError || !eventData\<close>.
\<close>

definition select_active_event :: "remote \<Rightarrow> DisasterEvent option" where
  "select_active_event r =
     (if events_error r then None
      else case filter (\<lambda>e. ev_status e = Active) (events r) of
             [] \<Rightarrow> None
           | e # _ \<Rightarrow> Some e)"

text \<open>
  \<^verbatim>\<open>
  let residentQuery = supabase.from('residents').select('id', { count: 'exact' });
  if (filterMunicipality !== 'all') residentQuery = residentQuery.eq('municipality', filterMunicipality);
  if (filterBarangay !== 'all') residentQuery = residentQuery.eq('barangay', filterBarangay);
  \<close>
  \<open>None\<close> is \<^verbatim>\<open>residentError\<close>; the exact count is the number of rows returned.
\<close>

definition select_resident_ids :: "remote \<Rightarrow> string \<Rightarrow> string \<Rightarrow> string list option" where
  "select_resident_ids r filterMunicipality filterBarangay =
     (if residents_error r then None
      else Some (map res_id
        (filter (\<lambda>x. filterBarangay \<noteq> ''all'' \<longrightarrow> barangay x = filterBarangay)
          (filter (\<lambda>x. filterMunicipality \<noteq> ''all'' \<longrightarrow> municipality x = filterMunicipality)
            (residents r)))))"

text \<open>
  \<^verbatim>\<open>supabase.from('resident_status_log').select('resident_id, status, timestamp, evac_center_id')
  .eq('event_id', eventData.id).in('resident_id', residentIds)\<close>
\<close>

definition rows_of_event :: "LogRow list \<Rightarrow> string \<Rightarrow> string list \<Rightarrow> LogEntry list" where
  "rows_of_event table eid residentIds =
     map LogEntry.truncate
       (filter (\<lambda>row. resident_id row \<in> set residentIds)
          (filter (\<lambda>row. event_id row = eid) table))"

definition select_logs :: "remote \<Rightarrow> string \<Rightarrow> string list \<Rightarrow> LogEntry list option" where
  "select_logs r eid residentIds =
     (if log_error r then None else Some (rows_of_event (resident_status_log r) eid residentIds))"

text \<open>\<^verbatim>\<open>supabase.from('evacuation_centers').select('id, name, capacity')\<close>\<close>

definition select_centers :: "remote \<Rightarrow> Center list option" where
  "select_centers r = (if centers_error r then None else Some (evacuation_centers r))"

subsection \<open>fetchData\<close>

text \<open>
  The state of the dashboard that \<^verbatim>\<open>fetchData\<close> sets. \<^verbatim>\<open>totalAffected\<close> starts as
  the string \<^verbatim>\<open>'...'\<close>, here \<open>None\<close>.
\<close>

record dashboard =
  activeEvent :: "DisasterEvent option"
  stats :: "(ResidentStatus, nat) js_map"
  statusGroups :: "(ResidentStatus, string list) js_map"
  evacCenterGroups :: "(string, string list) js_map"
  evacStats :: "EvacStat list"
  totalAffected :: "nat option"
  allAffectedIds :: "string list"
  isLoading :: bool

definition initial_dashboard :: dashboard where
  "initial_dashboard =
     \<lparr> activeEvent = None, stats = initial_stats, statusGroups = [], evacCenterGroups = [],
       evacStats = [], totalAffected = None, allAffectedIds = [], isLoading = True \<rparr>"

text \<open>One constructor for each \<^verbatim>\<open>return\<close> of \<^verbatim>\<open>fetchData\<close>, in the order of the source.\<close>

datatype fetch_outcome =
    NoActiveEvent        \<comment> \<open>\<^verbatim>\<open>console.log("No active events found.")\<close>\<close>
  | ResidentsError       \<comment> \<open>\<^verbatim>\<open>showToast("Error fetching residents data", "error")\<close>\<close>
  | NoResidents          \<comment> \<open>\<^verbatim>\<open>residentIds.length === 0\<close>\<close>
  | LogsError            \<comment> \<open>\<^verbatim>\<open>showToast("Error fetching status logs", "error")\<close>\<close>
  | Finished

definition resolve_logs :: "string list \<Rightarrow> LogEntry list \<Rightarrow> tally" where
  "resolve_logs residentIds logs =
     (let latestLogs = map_values (latestStatusMap logs)
      in with_unknowns residentIds latestLogs (tally_logs latestLogs))"

definition fetchData ::
  "remote \<Rightarrow> string \<Rightarrow> string \<Rightarrow> dashboard \<Rightarrow> fetch_outcome \<times> dashboard" where
  "fetchData r filterMunicipality filterBarangay d0 =
     (let d = d0 \<lparr> isLoading := True \<rparr> in
      case select_active_event r of
        None \<Rightarrow> (NoActiveEvent, d \<lparr> isLoading := False \<rparr>)
      | Some eventData \<Rightarrow>
          (let d1 = d \<lparr> activeEvent := Some eventData \<rparr> in
           case select_resident_ids r filterMunicipality filterBarangay of
             None \<Rightarrow> (ResidentsError, d1 \<lparr> isLoading := False \<rparr>)
           | Some residentIds \<Rightarrow>
               (let affectedCount = length residentIds;
                    d2 = d1 \<lparr> totalAffected := Some affectedCount, allAffectedIds := residentIds \<rparr>
                in
                if length residentIds = 0
                then (NoResidents,
                      d2 \<lparr> stats := [(Safe, 0), (Evacuated, 0), (Injured, 0), (Missing, 0),
                                     (Deceased, 0), (Unknown, affectedCount)],
                           statusGroups := [(Unknown, [])],
                           evacCenterGroups := [],
                           evacStats := [],
                           isLoading := False \<rparr>)
                else
                  case select_logs r (ev_id eventData) residentIds of
                    None \<Rightarrow> (LogsError, d2 \<lparr> isLoading := False \<rparr>)
                  | Some logs \<Rightarrow>
                      (let latestLogs = map_values (latestStatusMap logs);
                           t = resolve_logs residentIds logs;
                           d3 = d2 \<lparr> stats := newStats t, statusGroups := newGroups t,
                                     evacCenterGroups := newEvacGroups t \<rparr>;
                           d4 = (case select_centers r of
                                   Some centers \<Rightarrow> d3 \<lparr> evacStats := evacChartData centers latestLogs \<rparr>
                                 | None \<Rightarrow> d3)
                       in (Finished, d4 \<lparr> isLoading := False \<rparr>)))))"

section \<open>The offline cache (dbService)\<close>

subsection \<open>Values, objects and keys\<close>

text \<open>
  The cache stores rows as they came from the remote store: plain objects whose
  properties hold primitive values. An object lists its properties in insertion order.
\<close>

datatype jsval = JUndefined | JNull | JBool bool | JNum int | JStr string

type_synonym js_object = "(string, jsval) js_map"

text \<open>Reading a property that is absent gives \<^verbatim>\<open>undefined\<close>.\<close>

definition get_prop :: "js_object \<Rightarrow> string \<Rightarrow> jsval" where
  "get_prop obj k = (case map_get obj k of None \<Rightarrow> JUndefined | Some v \<Rightarrow> v)"

text \<open>
  IndexedDB accepts numbers and strings as keys (of the values modelled here), and orders
  every number before every string; strings compare by their code units.
\<close>

datatype idb_key = KNum int | KStr string

instantiation idb_key :: linorder
begin

fun less_eq_idb_key :: "idb_key \<Rightarrow> idb_key \<Rightarrow> bool" where
  "less_eq_idb_key (KNum a) (KNum b) = (a \<le> b)"
| "less_eq_idb_key (KNum a) (KStr t) = True"
| "less_eq_idb_key (KStr s) (KNum b) = False"
| "less_eq_idb_key (KStr s) (KStr t) = (s \<le> t)"

definition less_idb_key :: "idb_key \<Rightarrow> idb_key \<Rightarrow> bool" where
  "less_idb_key a b \<longleftrightarrow> a \<le> b \<and> \<not> b \<le> a"

instance
proof
  fix x y z :: idb_key
  show "(x < y) = (x \<le> y \<and> \<not> y \<le> x)" by (simp add: less_idb_key_def)
  show "x \<le> x" by (cases x) simp_all
  show "x \<le> y \<Longrightarrow> y \<le> z \<Longrightarrow> x \<le> z" by (cases x; cases y; cases z) auto
  show "x \<le> y \<Longrightarrow> y \<le> x \<Longrightarrow> x = y" by (cases x; cases y) auto
  show "x \<le> y \<or> y \<le> x" by (cases x; cases y) auto
qed

end

text \<open>
  The key of a record is the value of the property that the store's key path names;
  \<open>None\<close> when that value is no valid key, and then \<^verbatim>\<open>put\<close> throws a \<^verbatim>\<open>DataError\<close>.
\<close>

definition key_at :: "string \<Rightarrow> js_object \<Rightarrow> idb_key option" where
  "key_at keyPath item =
     (case get_prop item keyPath of
        JNum n \<Rightarrow> Some (KNum n)
      | JStr s \<Rightarrow> Some (KStr s)
      | _ \<Rightarrow> None)"

subsection \<open>Object stores\<close>

text \<open>
  An object store holds one record for each key, in ascending order of the keys.
  \<^verbatim>\<open>put\<close> replaces the record that has the key, or inserts at the key's place.
\<close>

record object_store =
  keyPath :: string
  records :: "(idb_key \<times> js_object) list"

fun store_put :: "idb_key \<Rightarrow> js_object \<Rightarrow> (idb_key \<times> js_object) list \<Rightarrow> (idb_key \<times> js_object) list" where
  "store_put k item [] = [(k, item)]"
| "store_put k item ((k', item') # rest) =
     (if k' < k then (k', item') # store_put k item rest
      else if k' = k then (k, item) # rest
      else (k, item) # (k', item') # rest)"

text \<open>
  The module keeps the open connection in the variable \<^verbatim>\<open>db\<close>; the database itself,
  with its version and its stores, lives in the browser. A database that was never opened
  has version 0 and no store.
\<close>

record storage =
  db :: bool
  idb_version :: nat
  idb_stores :: "string \<rightharpoonup> object_store"

definition fresh_storage :: storage where
  "fresh_storage = \<lparr> db = False, idb_version = 0, idb_stores = Map.empty \<rparr>"

definition DB_VERSION :: nat where
  "DB_VERSION = 1"

text \<open>
  \<^verbatim>\<open>const STORES = { residents: 'residents', evac_centers: 'evac_centers', metadata: 'metadata' }\<close>,
  each with the key path that \<^verbatim>\<open>onupgradeneeded\<close> gives it.
\<close>

definition STORES :: "(string \<times> string) list" where
  "STORES = [(''residents'', ''id''), (''evac_centers'', ''id''), (''metadata'', ''key'')]"

text \<open>
  \<^verbatim>\<open>
  if (!tempDb.objectStoreNames.contains(STORES.residents)) {
      tempDb.createObjectStore(STORES.residents, { keyPath: 'id' });
  }
  \<close>
  and likewise for the other two stores.
\<close>

definition create_if_missing :: "(string \<rightharpoonup> object_store) \<Rightarrow> string \<times> string \<Rightarrow> (string \<rightharpoonup> object_store)" where
  "create_if_missing stores st =
     (case stores (fst st) of
        None \<Rightarrow> stores(fst st \<mapsto> \<lparr> keyPath = snd st, records = [] \<rparr>)
      | Some _ \<Rightarrow> stores)"

definition onupgradeneeded :: "storage \<Rightarrow> storage" where
  "onupgradeneeded s =
     s \<lparr> idb_version := DB_VERSION, idb_stores := foldl create_if_missing (idb_stores s) STORES \<rparr>"

datatype cache_error =
    OpenError        \<comment> \<open>\<^verbatim>\<open>reject("Error opening IndexedDB.")\<close>\<close>
  | NotFoundError    \<comment> \<open>\<^verbatim>\<open>db.transaction\<close> throws: a store of that name does not exist\<close>
  | DataError        \<comment> \<open>\<^verbatim>\<open>store.put\<close> throws: the item has no valid key at the key path\<close>

text \<open>
  \<^verbatim>\<open>
  const openDB = (): Promise<IDBDatabase> => {
      return new Promise((resolve, reject) => {
          if (db) return resolve(db);
          const request = indexedDB.open(DB_NAME, DB_VERSION);
          request.onerror = () => reject("Error opening IndexedDB.");
          request.onsuccess = () => { db = request.result; resolve(db); };
          request.onupgradeneeded = (event) => { ... };
      });
  };
  \<close>
  Whether the browser lets the database be opened is the parameter \<open>available\<close>. The
  upgrade runs when the stored version is below \<^verbatim>\<open>DB_VERSION\<close>, and a stored version
  above it makes the request fail.
\<close>

definition openDB :: "bool \<Rightarrow> storage \<Rightarrow> cache_error + storage" where
  "openDB available s =
     (if db s then Inr s
      else if \<not> available \<or> DB_VERSION < idb_version s then Inl OpenError
      else Inr ((if idb_version s < DB_VERSION then onupgradeneeded s else s) \<lparr> db := True \<rparr>))"

text \<open>
  \<^verbatim>\<open>
  export const cacheData = async (storeName: string, data: any[]) => {
      const db = await openDB();
      return new Promise<void>((resolve, reject) => {
          const transaction = db.transaction(storeName, 'readwrite');
          const store = transaction.objectStore(storeName);
          store.clear(); // Clear old data before caching new data
          data.forEach(item => store.put(item));
          transaction.oncomplete = () => resolve();
          transaction.onerror = () => reject(`Error caching data to ${storeName}.`);
      });
  };
  \<close>
  An exception inside the executor rejects the promise; it does not abort the transaction,
  so the requests made before it are still carried out. A transaction that fails while it
  commits (the quota is exceeded, say) is not modelled.
\<close>

fun put_each ::
  "string \<Rightarrow> js_object list \<Rightarrow> (idb_key \<times> js_object) list \<Rightarrow> (cache_error + unit) \<times> (idb_key \<times> js_object) list" where
  "put_each kp [] rows = (Inr (), rows)"
| "put_each kp (item # items) rows =
     (case key_at kp item of
        None \<Rightarrow> (Inl DataError, rows)
      | Some k \<Rightarrow> put_each kp items (store_put k item rows))"

definition cacheData :: "bool \<Rightarrow> string \<Rightarrow> js_object list \<Rightarrow> storage \<Rightarrow> (cache_error + unit) \<times> storage" where
  "cacheData available storeName data s =
     (case openDB available s of
        Inl e \<Rightarrow> (Inl e, s)
      | Inr s1 \<Rightarrow>
          (case idb_stores s1 storeName of
             None \<Rightarrow> (Inl NotFoundError, s1)
           | Some store \<Rightarrow>
               (let (result, rows) = put_each (keyPath store) data []
                in (result, s1 \<lparr> idb_stores := (idb_stores s1)(storeName \<mapsto> store \<lparr> records := rows \<rparr>) \<rparr>))))"

text \<open>
  \<^verbatim>\<open>
  export const getCachedData = async <T>(storeName: string): Promise<T[]> => {
      const db = await openDB();
      return new Promise((resolve, reject) => {
          const transaction = db.transaction(storeName, 'readonly');
          const store = transaction.objectStore(storeName);
          const request = store.getAll();
          request.onsuccess = () => resolve(request.result as T[]);
          request.onerror = () => reject(`Error getting cached data from ${storeName}.`);
      });
  };
  \<close>
\<close>

definition getCachedData :: "bool \<Rightarrow> string \<Rightarrow> storage \<Rightarrow> (cache_error + js_object list) \<times> storage" where
  "getCachedData available storeName s =
     (case openDB available s of
        Inl e \<Rightarrow> (Inl e, s)
      | Inr s1 \<Rightarrow>
          (case idb_stores s1 storeName of
             None \<Rightarrow> (Inl NotFoundError, s1)
           | Some store \<Rightarrow> (Inr (map snd (records store)), s1)))"

text \<open>
  \<^verbatim>\<open>
  export const clearCache = async () => {
      const db = await openDB();
      return new Promise<void>((resolve, reject) => {
          const transaction = db.transaction([STORES.residents, STORES.evac_centers, STORES.metadata], 'readwrite');
          transaction.objectStore(STORES.residents).clear();
          transaction.objectStore(STORES.evac_centers).clear();
          transaction.objectStore(STORES.metadata).clear();
          transaction.oncomplete = () => resolve();
          transaction.onerror = () => reject('Error clearing cache.');
      });
  };
  \<close>
\<close>

definition clear_store :: "(string \<rightharpoonup> object_store) \<Rightarrow> string \<Rightarrow> (string \<rightharpoonup> object_store)" where
  "clear_store stores storeName =
     (case stores storeName of
        None \<Rightarrow> stores
      | Some store \<Rightarrow> stores(storeName \<mapsto> store \<lparr> records := [] \<rparr>))"

definition clearCache :: "bool \<Rightarrow> storage \<Rightarrow> (cache_error + unit) \<times> storage" where
  "clearCache available s =
     (case openDB available s of
        Inl e \<Rightarrow> (Inl e, s)
      | Inr s1 \<Rightarrow>
          if \<exists>storeName\<in>set (map fst STORES). idb_stores s1 storeName = None
          then (Inl NotFoundError, s1)
          else (Inr (), s1 \<lparr> idb_stores := foldl clear_store (idb_stores s1) (map fst STORES) \<rparr>))"

text \<open>
  The states that the operations reach from a fresh browser: the version is at most
  \<^verbatim>\<open>DB_VERSION\<close>, an open connection is to an upgraded database, and each of the three
  stores has its key path, or is still missing in a database that was not upgraded yet.
\<close>

definition stores_created :: "storage \<Rightarrow> bool" where
  "stores_created s \<longleftrightarrow>
     idb_version s \<le> DB_VERSION \<and>
     (db s \<longrightarrow> DB_VERSION \<le> idb_version s) \<and>
     (\<forall>st\<in>set STORES.
        case idb_stores s (fst st) of
          None \<Rightarrow> idb_version s < DB_VERSION
        | Some store \<Rightarrow> keyPath store = snd st)"

section \<open>The status update page (StatusUpdatePage)\<close>

text \<open>
  The state of the page; the scanner and the search box are left out. Residents and
  evacuation centers are the objects that the remote store or the cache returned.
  \<open>su_activeEvent\<close> and \<open>su_isLoading\<close> are the page's \<^verbatim>\<open>activeEvent\<close> and
  \<^verbatim>\<open>isLoading\<close>.
\<close>

record page =
  su_activeEvent :: "DisasterEvent option"
  allResidents :: "js_object list"
  evacCenters :: "js_object list"
  selectedResident :: "js_object option"
  familyMembers :: "js_object list"
  newStatus :: ResidentStatus
  evacCenterId :: string
  su_isLoading :: bool

definition initial_page :: page where
  "initial_page =
     \<lparr> su_activeEvent = None, allResidents = [], evacCenters = [], selectedResident = None,
       familyMembers = [], newStatus = Safe, evacCenterId = [], su_isLoading = True \<rparr>"

text \<open>The rows of \<^verbatim>\<open>select('*')\<close> as objects, with the columns that the model keeps.\<close>

definition resident_object :: "ResidentRow \<Rightarrow> js_object" where
  "resident_object x =
     [(''id'', JStr (res_id x)), (''municipality'', JStr (municipality x)), (''barangay'', JStr (barangay x)),
      (''head_of_family_name'', (case head_of_family_name x of None \<Rightarrow> JNull | Some h \<Rightarrow> JStr h))]"

definition center_object :: "Center \<Rightarrow> js_object" where
  "center_object c =
     [(''id'', JStr (center_id c)), (''name'', JStr (name c)), (''capacity'', JNum (capacity c))]"

text \<open>\<^verbatim>\<open>{ ...r, status: undefined }\<close>\<close>

definition without_status :: "js_object \<Rightarrow> js_object" where
  "without_status r = map_set ''status'' JUndefined r"

text \<open>
  \<^verbatim>\<open>
  const loadInitialData = useCallback(async () => {
      setIsLoading(true);
      if (isOnline) {
          const { data: eventData } = await supabase.from('events').select('*').eq('status', 'Active').limit(1).single();
          if (eventData) {
              setActiveEvent(eventData);
              const { data: residentData } = await supabase.from('residents').select('*');
              setAllResidents((residentData as Resident[]) || []);
              const { data: centerData } = await supabase.from('evacuation_centers').select('*');
              setEvacCenters(centerData || []);
          }
      } else {
          showToast("You are offline. Showing cached data.", "success");
          const cachedResidents = await getCachedData<Resident>('residents');
          const residentsWithoutStatus = cachedResidents.map(r => ({ ...r, status: undefined }));
          setAllResidents(residentsWithoutStatus);
          const cachedCenters = await getCachedData<EvacuationCenter>('evac_centers');
          setEvacCenters(cachedCenters);
          setActiveEvent(null);
      }
      setIsLoading(false);
  }, [isOnline, showToast]);
  \<close>
  A rejected \<^verbatim>\<open>getCachedData\<close> ends the function where it stands.
\<close>

definition loadInitialData ::
  "bool \<Rightarrow> bool \<Rightarrow> remote \<Rightarrow> storage \<Rightarrow> page \<Rightarrow> (cache_error + unit) \<times> storage \<times> page" where
  "loadInitialData isOnline available r s p0 =
     (let p = p0 \<lparr> su_isLoading := True \<rparr> in
      if isOnline then
        (case select_active_event r of
           None \<Rightarrow> (Inr (), s, p \<lparr> su_isLoading := False \<rparr>)
         | Some eventData \<Rightarrow>
             (Inr (), s,
              p \<lparr> su_activeEvent := Some eventData,
                  allResidents := (if residents_error r then [] else map resident_object (residents r)),
                  evacCenters := (if centers_error r then [] else map center_object (evacuation_centers r)),
                  su_isLoading := False \<rparr>))
      else
        (case getCachedData available ''residents'' s of
           (Inl e, s1) \<Rightarrow> (Inl e, s1, p)
         | (Inr cachedResidents, s1) \<Rightarrow>
             (let p1 = p \<lparr> allResidents := map without_status cachedResidents \<rparr> in
              case getCachedData available ''evac_centers'' s1 of
                (Inl e, s2) \<Rightarrow> (Inl e, s2, p1)
              | (Inr cachedCenters, s2) \<Rightarrow>
                  (Inr (), s2,
                   p1 \<lparr> evacCenters := cachedCenters, su_activeEvent := None, su_isLoading := False \<rparr>))))"

text \<open>
  The status that the lists of residents print for a resident, \<^verbatim>\<open>res.status || 'Unknown'\<close>
  (ResidentsPage): \<^verbatim>\<open>undefined\<close>, \<^verbatim>\<open>null\<close>, \<^verbatim>\<open>false\<close>, 0 and the empty string are
  falsy.
\<close>

fun js_truthy :: "jsval \<Rightarrow> bool" where
  "js_truthy JUndefined = False"
| "js_truthy JNull = False"
| "js_truthy (JBool b) = b"
| "js_truthy (JNum n) = (n \<noteq> 0)"
| "js_truthy (JStr s) = (s \<noteq> [])"


text \<open>
  \<^verbatim>\<open>
  const handleSelectResident = (resident: Resident) => {
      setSelectedResident(resident);
      setSearchTerm('');
      if (resident.head_of_family_name) {
          const family = allResidents.filter(r => r.head_of_family_name === resident.head_of_family_name);
          setFamilyMembers(family);
      } else {
          setFamilyMembers([resident]);
      }
  };
  \<close>
\<close>

definition handleSelectResident :: "js_object \<Rightarrow> page \<Rightarrow> page" where
  "handleSelectResident resident p =
     p \<lparr> selectedResident := Some resident,
         familyMembers :=
           (if js_truthy (get_prop resident ''head_of_family_name'')
            then filter (\<lambda>r. get_prop r ''head_of_family_name'' = get_prop resident ''head_of_family_name'')
                   (allResidents p)
            else [resident]) \<rparr>"

text \<open>
  \<^verbatim>\<open>
  const handleScan = (residentId: string) => {
      const found = allResidents.find(r => r.id === residentId);
      if (found) { handleSelectResident(found); ... } else { ... }
      setIsScanning(false);
  };
  \<close>
\<close>

definition handleScan :: "string \<Rightarrow> page \<Rightarrow> page" where
  "handleScan residentId p =
     (case find (\<lambda>r. get_prop r ''id'' = JStr residentId) (allResidents p) of
        Some found \<Rightarrow> handleSelectResident found p
      | None \<Rightarrow> p)"

text \<open>
  The select ``New Status'' offers five options, and its handler stores the value of the
  option that was chosen:
  \<^verbatim>\<open>
  <Select label="New Status" value={newStatus} onChange={e => setNewStatus(e.target.value as ResidentStatus)} ...>
      <option>Safe</option> <option>Evacuated</option> <option>Injured</option> <option>Missing</option> <option>Deceased</option>
  </Select>
  \<close>
  The choice is the position of the option.
\<close>

definition newStatus_options :: "ResidentStatus list" where
  "newStatus_options = [Safe, Evacuated, Injured, Missing, Deceased]"

definition onChange_newStatus :: "nat \<Rightarrow> page \<Rightarrow> page" where
  "onChange_newStatus i p =
     (if i < length newStatus_options then p \<lparr> newStatus := newStatus_options ! i \<rparr> else p)"

text \<open>
  A row as \<^verbatim>\<open>handleUpdateStatus\<close> sends it
  (\<^verbatim>\<open>Database['public']['Tables']['resident_status_log']['Insert']\<close>); the database adds
  the serial \<^verbatim>\<open>id\<close> and the \<^verbatim>\<open>timestamp\<close>.
\<close>

record LogInsert =
  ins_resident_id :: jsval
  ins_status :: ResidentStatus
  ins_event_id :: string
  ins_evac_center_id :: "string option"

text \<open>
  \<^verbatim>\<open>supabase.from('resident_status_log').insert(statusLogs)\<close>: the rows are appended with
  the time of the server \<open>now\<close>, or none is when the insert fails (\<open>insert_ok\<close> is false, or a
  \<^verbatim>\<open>resident_id\<close> is not a string).
\<close>

fun stored_row :: "int \<Rightarrow> int \<Rightarrow> LogInsert \<Rightarrow> LogRow option" where
  "stored_row now n row =
     (case ins_resident_id row of
        JStr rid \<Rightarrow>
          Some \<lparr> resident_id = rid, status = ins_status row, timestamp = now,
                 evac_center_id = ins_evac_center_id row, log_id = n, event_id = ins_event_id row \<rparr>
      | _ \<Rightarrow> None)"

fun stored_rows :: "int \<Rightarrow> int \<Rightarrow> LogInsert list \<Rightarrow> LogRow list option" where
  "stored_rows now n [] = Some []"
| "stored_rows now n (row # rows) =
     (case stored_row now n row of
        None \<Rightarrow> None
      | Some x \<Rightarrow> (case stored_rows now (n + 1) rows of None \<Rightarrow> None | Some xs \<Rightarrow> Some (x # xs)))"

definition insert_status_logs :: "bool \<Rightarrow> int \<Rightarrow> LogInsert list \<Rightarrow> remote \<Rightarrow> remote option" where
  "insert_status_logs insert_ok now statusLogs r =
     (if \<not> insert_ok then None
      else case stored_rows now (int (length (resident_status_log r)) + 1) statusLogs of
             None \<Rightarrow> None
           | Some rows \<Rightarrow> Some (r \<lparr> resident_status_log := resident_status_log r @ rows \<rparr>))"

text \<open>
  \<^verbatim>\<open>
  const handleUpdateStatus = async (e: React.FormEvent) => {
      e.preventDefault();
      if (!selectedResident || !activeEvent || !isOnline) { showToast(...); return; }
      let selectedIds: string[];
      if (familyMembers.length > 1) {
          const form = e.target as HTMLFormElement;
          selectedIds = Array.from(form.querySelectorAll('input[name=family-member]:checked')).map(el => (el as HTMLInputElement).value);
          if (selectedIds.length === 0) { showToast(...); return; }
      } else {
          selectedIds = [selectedResident.id];
      }
      const statusLogs = selectedIds.map(id => ({
          resident_id: id,
          status: newStatus,
          event_id: activeEvent.id,
          evac_center_id: newStatus === 'Evacuated' ? (evacCenterId || null) : null
      }));
      const { error } = await supabase.from('resident_status_log').insert(statusLogs);
      if (error) { showToast(...); }
      else { showToast(...); setSelectedResident(null); setFamilyMembers([]); setNewStatus('Safe'); setEvacCenterId(''); }
  };
  \<close>
  \<open>checked\<close> holds the values of the boxes that are ticked.
\<close>

definition statusLogs_of :: "jsval list \<Rightarrow> page \<Rightarrow> DisasterEvent \<Rightarrow> LogInsert list" where
  "statusLogs_of selectedIds p ev =
     map (\<lambda>i. \<lparr> ins_resident_id = i,
                 ins_status = newStatus p,
                 ins_event_id = ev_id ev,
                 ins_evac_center_id =
                   (if newStatus p = Evacuated
                    then (if evacCenterId p \<noteq> [] then Some (evacCenterId p) else None)
                    else None) \<rparr>)
       selectedIds"

definition handleUpdateStatus ::
  "bool \<Rightarrow> string list \<Rightarrow> int \<Rightarrow> bool \<Rightarrow> page \<times> remote \<Rightarrow> page \<times> remote" where
  "handleUpdateStatus isOnline checked now insert_ok pr =
     (let p = fst pr; r = snd pr in
      case selectedResident p of
        None \<Rightarrow> (p, r)
      | Some selected \<Rightarrow>
          (case su_activeEvent p of
             None \<Rightarrow> (p, r)
           | Some ev \<Rightarrow>
               if \<not> isOnline then (p, r)
               else if length (familyMembers p) > 1 \<and> length checked = 0 then (p, r)
               else
                 (let selectedIds =
                        (if length (familyMembers p) > 1 then map JStr checked
                         else [get_prop selected ''id''])
                  in case insert_status_logs insert_ok now (statusLogs_of selectedIds p ev) r of
                       None \<Rightarrow> (p, r)
                     | Some r' \<Rightarrow>
                         (p \<lparr> selectedResident := None, familyMembers := [], newStatus := Safe,
                              evacCenterId := [] \<rparr>, r'))))"

text \<open>
  What happens to the page: it is mounted or the connectivity changes, and the page loads
  its data; the user picks a resident from the search results, which are residents of the
  page, or scans a code; chooses a status or a center in the form; clears the form; or
  submits it.
\<close>

datatype ui_event =
    Connectivity bool bool
  | PickResident js_object
  | Scan string
  | ChooseStatus nat
  | ChooseCenter string
  | ClearForm
  | Submit "string list" int bool

record app =
  isOnline :: bool
  the_page :: page
  the_remote :: remote
  the_storage :: storage

fun ui_step :: "app \<Rightarrow> ui_event \<Rightarrow> app" where
  "ui_step a (Connectivity online available) =
     (case loadInitialData online available (the_remote a) (the_storage a) (the_page a) of
        (_, s, p) \<Rightarrow> a \<lparr> isOnline := online, the_page := p, the_storage := s \<rparr>)"
| "ui_step a (PickResident resident) =
     (if resident \<in> set (allResidents (the_page a))
      then a \<lparr> the_page := handleSelectResident resident (the_page a) \<rparr>
      else a)"
| "ui_step a (Scan residentId) = a \<lparr> the_page := handleScan residentId (the_page a) \<rparr>"
| "ui_step a (ChooseStatus i) = a \<lparr> the_page := onChange_newStatus i (the_page a) \<rparr>"
| "ui_step a (ChooseCenter c) = a \<lparr> the_page := (the_page a) \<lparr> evacCenterId := c \<rparr> \<rparr>"
| "ui_step a ClearForm = a \<lparr> the_page := (the_page a) \<lparr> selectedResident := None \<rparr> \<rparr>"
| "ui_step a (Submit checked now insert_ok) =
     (case handleUpdateStatus (isOnline a) checked now insert_ok (the_page a, the_remote a) of
        (p, r) \<Rightarrow> a \<lparr> the_page := p, the_remote := r \<rparr>)"

definition ui_run :: "app \<Rightarrow> ui_event list \<Rightarrow> app" where
  "ui_run a evs = foldl ui_step a evs"

section \<open>Sample data\<close>

text \<open>
  One active event \<open>E1\<close> and a resolved one \<open>E2\<close>, three residents, and a log in which
  \<open>R1\<close> was reported safe and then evacuated to \<open>C1\<close>, \<open>R2\<close> is missing, and \<open>R3\<close> has
  an entry under \<open>E2\<close> only.
\<close>

abbreviation sample_log :: "LogRow list" where
  "sample_log \<equiv>
     [\<lparr> resident_id = ''R1'', status = Safe, timestamp = 1000, evac_center_id = None, log_id = 1, event_id = ''E1'' \<rparr>,
      \<lparr> resident_id = ''R1'', status = Evacuated, timestamp = 2000, evac_center_id = Some ''C1'', log_id = 2, event_id = ''E1'' \<rparr>,
      \<lparr> resident_id = ''R2'', status = Missing, timestamp = 3000, evac_center_id = None, log_id = 3, event_id = ''E1'' \<rparr>,
      \<lparr> resident_id = ''R3'', status = Evacuated, timestamp = 500, evac_center_id = Some ''C1'', log_id = 4, event_id = ''E2'' \<rparr>]"

abbreviation sample_remote :: remote where
  "sample_remote \<equiv>
     \<lparr> events = [\<lparr> ev_id = ''E2'', ev_name = ''Flood'', ev_status = Resolved \<rparr>,
                 \<lparr> ev_id = ''E1'', ev_name = ''Storm'', ev_status = Active \<rparr>],
       events_error = False,
       residents = [\<lparr> res_id = ''R1'', municipality = ''M'', barangay = ''B1'', head_of_family_name = Some ''Ana Cruz'' \<rparr>,
                    \<lparr> res_id = ''R2'', municipality = ''M'', barangay = ''B2'', head_of_family_name = None \<rparr>,
                    \<lparr> res_id = ''R3'', municipality = ''M'', barangay = ''B1'', head_of_family_name = Some ''Ana Cruz'' \<rparr>],
       residents_error = False,
       resident_status_log = sample_log,
       log_error = False,
       evacuation_centers = [\<lparr> center_id = ''C1'', name = ''Gym'', capacity = 10 \<rparr>,
                             \<lparr> center_id = ''C2'', name = ''Hall'', capacity = 0 \<rparr>],
       centers_error = False \<rparr>"




text \<open>A store with one resident, no active event and an empty log.\<close>

abbreviation no_event_remote :: remote where
  "no_event_remote \<equiv>
     \<lparr> events = [\<lparr> ev_id = ''E2'', ev_name = ''Flood'', ev_status = Resolved \<rparr>],
       events_error = False,
       residents = [\<lparr> res_id = ''R1'', municipality = ''M'', barangay = ''B1'', head_of_family_name = Some ''Ana Cruz'' \<rparr>],
       residents_error = False,
       resident_status_log = [],
       log_error = False,
       evacuation_centers = [],
       centers_error = False \<rparr>"

text \<open>An active event and two residents, with an empty log.\<close>

abbreviation empty_log_remote :: remote where
  "empty_log_remote \<equiv>
     \<lparr> events = [\<lparr> ev_id = ''E1'', ev_name = ''Storm'', ev_status = Active \<rparr>],
       events_error = False,
       residents = [\<lparr> res_id = ''R1'', municipality = ''M'', barangay = ''B1'', head_of_family_name = Some ''Ana Cruz'' \<rparr>,
                    \<lparr> res_id = ''R2'', municipality = ''M'', barangay = ''B2'', head_of_family_name = None \<rparr>],
       residents_error = False,
       resident_status_log = [],
       log_error = False,
       evacuation_centers = [],
       centers_error = False \<rparr>"

text \<open>
  Two cached residents; the first still carries a status from the session that cached it.
\<close>

abbreviation cached_R1 :: js_object where
  "cached_R1 \<equiv> [(''id'', JStr ''R1''), (''first_name'', JStr ''Ana''), (''status'', JStr ''Safe'')]"

abbreviation cached_R2 :: js_object where
  "cached_R2 \<equiv> [(''id'', JStr ''R2''), (''first_name'', JStr ''Ben'')]"

abbreviation cached_R3 :: js_object where
  "cached_R3 \<equiv> [(''id'', JStr ''R3''), (''first_name'', JStr ''Cai'')]"

section \<open>Properties of the status resolution\<close>

subsection \<open>The insertion-ordered map\<close>








subsection \<open>The latest entry of each resident\<close>

lemma latestStatusMap_Nil: "latestStatusMap [] = []"
  by (simp add: latestStatusMap_def)















subsection \<open>Counts and groups\<close>

lemma tally_logs_Nil:
  "tally_logs [] = \<lparr> newStats = initial_stats, newGroups = initial_groups, newEvacGroups = [] \<rparr>"
  by (simp add: tally_logs_def)













subsection \<open>What fetchData leaves in the dashboard\<close>















subsection \<open>The chart of the evacuation centers\<close>









subsection \<open>No active event, no entity, no log\<close>

lemma fetchData_NoActiveEvent_iff:
  "fst (fetchData r fm fb d0) = NoActiveEvent \<longleftrightarrow> select_active_event r = None"
  by (auto simp: fetchData_def Let_def split: option.splits if_splits)

lemma fetchData_no_event:
  "select_active_event r = None \<Longrightarrow> fetchData r fm fb d0 = (NoActiveEvent, d0 \<lparr> isLoading := False \<rparr>)"
  by (simp add: fetchData_def Let_def)

lemma fetchData_no_entities:
  "select_active_event r = Some ev \<Longrightarrow> select_resident_ids r fm fb = Some [] \<Longrightarrow>
     fetchData r fm fb d0 =
       (NoResidents,
        d0 \<lparr> isLoading := False, activeEvent := Some ev, totalAffected := Some 0, allAffectedIds := [],
             stats := [(Safe, 0), (Evacuated, 0), (Injured, 0), (Missing, 0), (Deceased, 0), (Unknown, 0)],
             statusGroups := [(Unknown, [])], evacCenterGroups := [], evacStats := [] \<rparr>)"
  by (simp add: fetchData_def Let_def)

lemma resolve_no_logs:
  "resolve_logs ids [] =
     \<lparr> newStats = [(Safe, 0), (Evacuated, 0), (Injured, 0), (Missing, 0), (Deceased, 0), (Unknown, length ids)],
       newGroups = [(Safe, []), (Evacuated, []), (Injured, []), (Missing, []), (Deceased, []), (Unknown, ids)],
       newEvacGroups = [] \<rparr>"
  by (simp add: resolve_logs_def latestStatusMap_Nil map_values_def tally_logs_Nil with_unknowns_def
      unknownIds_def initial_stats_def initial_groups_def)

lemma fetchData_no_logs:
  assumes "select_active_event r = Some ev" "select_resident_ids r fm fb = Some ids" "ids \<noteq> []"
      "\<not> log_error r" "rows_of_event (resident_status_log r) (ev_id ev) ids = []"
  shows "fst (fetchData r fm fb d0) = Finished \<and>
         stats (snd (fetchData r fm fb d0))
           = [(Safe, 0), (Evacuated, 0), (Injured, 0), (Missing, 0), (Deceased, 0), (Unknown, length ids)] \<and>
         statusGroups (snd (fetchData r fm fb d0))
           = [(Safe, []), (Evacuated, []), (Injured, []), (Missing, []), (Deceased, []), (Unknown, ids)] \<and>
         evacCenterGroups (snd (fetchData r fm fb d0)) = []"
  using assms
  by (simp add: fetchData_def Let_def select_logs_def resolve_no_logs split: option.splits)

section \<open>The claims about status resolution\<close>













text \<open>
  Claim C8, as the code has it. \<open>fetchData\<close> raises no error of its own: when the query for
  the active event fails or finds no row it logs a line and returns, leaving the dashboard
  as it was, and it does so whether or not the log holds any data. With an active event it
  does not fail on an empty entity list (all six counts are 0 and only an empty \<open>Unknown\<close>
  group is left) nor, when the queries succeed, on an empty log (every entity is counted
  and listed as \<open>Unknown\<close>, every other count is 0, and no evacuation-center group exists).
\<close>

theorem no_active_event_aborts:
  "(fst (fetchData r fm fb d0) = NoActiveEvent \<longleftrightarrow> select_active_event r = None) \<and>
   (select_active_event r = None \<longrightarrow> snd (fetchData r fm fb d0) = d0 \<lparr> isLoading := False \<rparr>) \<and>
   (select_active_event r \<noteq> None \<and> select_resident_ids r fm fb = Some [] \<longrightarrow>
      fst (fetchData r fm fb d0) = NoResidents \<and>
      stats (snd (fetchData r fm fb d0))
        = [(Safe, 0), (Evacuated, 0), (Injured, 0), (Missing, 0), (Deceased, 0), (Unknown, 0)] \<and>
      statusGroups (snd (fetchData r fm fb d0)) = [(Unknown, [])] \<and>
      evacCenterGroups (snd (fetchData r fm fb d0)) = [] \<and>
      evacStats (snd (fetchData r fm fb d0)) = []) \<and>
   (\<forall>ev ids. select_active_event r = Some ev \<and> select_resident_ids r fm fb = Some ids \<and> ids \<noteq> [] \<and>
        \<not> log_error r \<and> rows_of_event (resident_status_log r) (ev_id ev) ids = [] \<longrightarrow>
      fst (fetchData r fm fb d0) = Finished \<and>
      stats (snd (fetchData r fm fb d0))
        = [(Safe, 0), (Evacuated, 0), (Injured, 0), (Missing, 0), (Deceased, 0), (Unknown, length ids)] \<and>
      statusGroups (snd (fetchData r fm fb d0))
        = [(Safe, []), (Evacuated, []), (Injured, []), (Missing, []), (Deceased, []), (Unknown, ids)] \<and>
      evacCenterGroups (snd (fetchData r fm fb d0)) = [])"
proof (intro conjI)
  show "fst (fetchData r fm fb d0) = NoActiveEvent \<longleftrightarrow> select_active_event r = None"
    by (rule fetchData_NoActiveEvent_iff)
  show "select_active_event r = None \<longrightarrow> snd (fetchData r fm fb d0) = d0 \<lparr> isLoading := False \<rparr>"
    by (simp add: fetchData_no_event)
  show "select_active_event r \<noteq> None \<and> select_resident_ids r fm fb = Some [] \<longrightarrow>
      fst (fetchData r fm fb d0) = NoResidents \<and>
      stats (snd (fetchData r fm fb d0))
        = [(Safe, 0), (Evacuated, 0), (Injured, 0), (Missing, 0), (Deceased, 0), (Unknown, 0)] \<and>
      statusGroups (snd (fetchData r fm fb d0)) = [(Unknown, [])] \<and>
      evacCenterGroups (snd (fetchData r fm fb d0)) = [] \<and>
      evacStats (snd (fetchData r fm fb d0)) = []"
    by (auto simp: fetchData_no_entities)
  show "\<forall>ev ids. select_active_event r = Some ev \<and> select_resident_ids r fm fb = Some ids \<and> ids \<noteq> [] \<and>
        \<not> log_error r \<and> rows_of_event (resident_status_log r) (ev_id ev) ids = [] \<longrightarrow>
      fst (fetchData r fm fb d0) = Finished \<and>
      stats (snd (fetchData r fm fb d0))
        = [(Safe, 0), (Evacuated, 0), (Injured, 0), (Missing, 0), (Deceased, 0), (Unknown, length ids)] \<and>
      statusGroups (snd (fetchData r fm fb d0))
        = [(Safe, []), (Evacuated, []), (Injured, []), (Missing, []), (Deceased, []), (Unknown, ids)] \<and>
      evacCenterGroups (snd (fetchData r fm fb d0)) = []"
    using fetchData_no_logs by blast
qed

theorem no_active_event_aborts_witness:
  "select_active_event empty_log_remote
     = Some \<lparr> ev_id = ''E1'', ev_name = ''Storm'', ev_status = Active \<rparr> \<and>
   select_resident_ids empty_log_remote ''all'' ''all'' = Some [''R1'', ''R2''] \<and>
   \<not> log_error empty_log_remote \<and>
   rows_of_event (resident_status_log empty_log_remote) ''E1'' [''R1'', ''R2''] = [] \<and>
   fst (fetchData empty_log_remote ''all'' ''all'' initial_dashboard) = Finished \<and>
   stats (snd (fetchData empty_log_remote ''all'' ''all'' initial_dashboard))
     = [(Safe, 0), (Evacuated, 0), (Injured, 0), (Missing, 0), (Deceased, 0), (Unknown, 2)] \<and>
   select_active_event no_event_remote = None \<and>
   fst (fetchData no_event_remote ''all'' ''all'' initial_dashboard) = NoActiveEvent"
proof -
  have a: "select_active_event empty_log_remote
     = Some \<lparr> ev_id = ''E1'', ev_name = ''Storm'', ev_status = Active \<rparr>"
    by (simp add: select_active_event_def)
  have b: "select_resident_ids empty_log_remote ''all'' ''all'' = Some [''R1'', ''R2'']"
    by (simp add: select_resident_ids_def)
  have c: "\<not> log_error empty_log_remote" by simp
  have d: "rows_of_event (resident_status_log empty_log_remote)
             (ev_id \<lparr> ev_id = ''E1'', ev_name = ''Storm'', ev_status = Active \<rparr>) [''R1'', ''R2''] = []"
    by (simp add: rows_of_event_def)
  have e: "select_active_event no_event_remote = None"
    by (simp add: select_active_event_def)
  from no_active_event_aborts[of empty_log_remote "''all''" "''all''" initial_dashboard] a b c d
  have "fst (fetchData empty_log_remote ''all'' ''all'' initial_dashboard) = Finished \<and>
        stats (snd (fetchData empty_log_remote ''all'' ''all'' initial_dashboard))
          = [(Safe, 0), (Evacuated, 0), (Injured, 0), (Missing, 0), (Deceased, 0), (Unknown, length [''R1'', ''R2''])]"
    by blast
  moreover from no_active_event_aborts[of no_event_remote "''all''" "''all''" initial_dashboard] e
  have "fst (fetchData no_event_remote ''all'' ''all'' initial_dashboard) = NoActiveEvent"
    by blast
  ultimately show ?thesis using a b c d e by simp
qed

text \<open>
  Claim C8 as stated ties the failure to the presence of log data. With no active event
  and an empty log the resolution is abandoned all the same.
\<close>

theorem invalid_scope_iff_counterexample:
  "fst (fetchData no_event_remote ''all'' ''all'' initial_dashboard) = NoActiveEvent \<and>
   resident_status_log no_event_remote = [] \<and>
   \<not> (fst (fetchData no_event_remote ''all'' ''all'' initial_dashboard) = NoActiveEvent
        \<longleftrightarrow> select_active_event no_event_remote = None \<and> resident_status_log no_event_remote \<noteq> [])"
  by (simp add: fetchData_def select_active_event_def)

section \<open>Properties of the offline cache\<close>

subsection \<open>Object stores\<close>

lemma keys_store_put: "fst ` set (store_put k item rows) = insert k (fst ` set rows)"
proof (induction rows)
  case Nil
  then show ?case by simp
next
  case (Cons p rows)
  obtain k' item' where p: "p = (k', item')" by (cases p)
  show ?case
  proof (cases "k' < k")
    case True
    with Cons show ?thesis by (simp add: p insert_commute)
  next
    case False
    then show ?thesis by (auto simp: p)
  qed
qed

lemma mset_store_put_fresh:
  "k \<notin> fst ` set rows \<Longrightarrow> mset (store_put k item rows) = add_mset (k, item) (mset rows)"
  by (induction rows) auto

lemma sorted_store_put:
  "sorted_wrt (<) (map fst rows) \<Longrightarrow> sorted_wrt (<) (map fst (store_put k item rows))"
proof (induction rows)
  case Nil
  then show ?case by simp
next
  case (Cons p rows)
  obtain k' item' where p: "p = (k', item')" by (cases p)
  from Cons.prems have tail: "sorted_wrt (<) (map fst rows)" and hd: "\<forall>x\<in>set rows. k' < fst x"
    by (auto simp: p)
  show ?case
  proof (cases "k' < k")
    case True
    have "\<forall>y\<in>fst ` set (store_put k item rows). k' < y"
      using hd True by (simp add: keys_store_put)
    then have "\<forall>x\<in>set (store_put k item rows). k' < fst x" by simp
    with True Cons.IH[OF tail] show ?thesis by (simp add: p)
  next
    case False
    with Cons.prems show ?thesis by (auto simp: p)
  qed
qed

lemma store_put_same:
  "sorted_wrt (<) (map fst rows) \<Longrightarrow> (k, item) \<in> set rows \<Longrightarrow> store_put k item rows = rows"
proof (induction rows)
  case Nil
  then show ?case by simp
next
  case (Cons p rows)
  obtain k' item' where p: "p = (k', item')" by (cases p)
  from Cons.prems(1) have tail: "sorted_wrt (<) (map fst rows)" and hd: "\<forall>x\<in>set rows. k' < fst x"
    by (auto simp: p)
  show ?case
  proof (cases "k' = k")
    case True
    have "(k, item) \<notin> set rows" using hd True by force
    with Cons.prems(2) True have "item' = item" by (simp add: p)
    with True show ?thesis by (simp add: p)
  next
    case False
    with Cons.prems(2) have mem: "(k, item) \<in> set rows" by (auto simp: p)
    with hd have "k' < k" by force
    with Cons.IH[OF tail mem] show ?thesis by (simp add: p)
  qed
qed

lemma put_each_entities:
  assumes "\<forall>item\<in>set items. key_at kp item \<noteq> None"
      and "inj_on (key_at kp) (set items \<union> snd ` set rows)"
      and "\<forall>p\<in>set rows. key_at kp (snd p) = Some (fst p)"
      and "sorted_wrt (<) (map fst rows)"
  shows "\<exists>rows'. put_each kp items rows = (Inr (), rows') \<and>
           snd ` set rows' = set items \<union> snd ` set rows \<and>
           (\<forall>p\<in>set rows'. key_at kp (snd p) = Some (fst p)) \<and>
           sorted_wrt (<) (map fst rows')"
  using assms
proof (induction items arbitrary: rows)
  case Nil
  then show ?case by simp
next
  case (Cons item items)
  then obtain k where k: "key_at kp item = Some k" by auto
  let ?rows = "store_put k item rows"
  have both: "(\<forall>p\<in>set ?rows. key_at kp (snd p) = Some (fst p)) \<and> snd ` set ?rows = insert item (snd ` set rows)"
  proof (cases "k \<in> fst ` set rows")
    case False
    then have s: "set ?rows = insert (k, item) (set rows)"
      using mset_store_put_fresh[of k rows item] by (metis set_mset_add_mset_insert set_mset_mset)
    have "\<forall>p\<in>set ?rows. key_at kp (snd p) = Some (fst p)" using s k Cons.prems(3) by auto
    moreover have "snd ` set ?rows = insert item (snd ` set rows)" using s by auto
    ultimately show ?thesis by blast
  next
    case True
    then obtain item' where m: "(k, item') \<in> set rows" by auto
    then have "key_at kp item' = Some k" using Cons.prems(3) by force
    moreover have "item' \<in> set (item # items) \<union> snd ` set rows" using m by force
    moreover have "item \<in> set (item # items) \<union> snd ` set rows" by simp
    ultimately have eq: "item' = item" using Cons.prems(2) k by (metis inj_onD)
    with m have same: "?rows = rows" using store_put_same[OF Cons.prems(4)] by simp
    have "\<forall>p\<in>set ?rows. key_at kp (snd p) = Some (fst p)" using same Cons.prems(3) by simp
    moreover have "snd ` set ?rows = insert item (snd ` set rows)" using same m eq by force
    ultimately show ?thesis by blast
  qed
  then have keyed: "\<forall>p\<in>set ?rows. key_at kp (snd p) = Some (fst p)"
    and vals: "snd ` set ?rows = insert item (snd ` set rows)" by blast+
  have 1: "\<forall>i\<in>set items. key_at kp i \<noteq> None" using Cons.prems(1) by simp
  have 2: "inj_on (key_at kp) (set items \<union> snd ` set ?rows)"
    using Cons.prems(2) vals by (auto intro: inj_on_subset)
  have 4: "sorted_wrt (<) (map fst ?rows)" using sorted_store_put[OF Cons.prems(4)] .
  from Cons.IH[OF 1 2 keyed 4] obtain rows' where r:
    "put_each kp items ?rows = (Inr (), rows')"
    "snd ` set rows' = set items \<union> snd ` set ?rows"
    "\<forall>p\<in>set rows'. key_at kp (snd p) = Some (fst p)"
    "sorted_wrt (<) (map fst rows')"
    by blast
  with k vals show ?case by auto
qed

lemma keyed_values_distinct:
  assumes "\<forall>p\<in>set rows. key_at kp (snd p) = Some (fst p)" and "sorted_wrt (<) (map fst rows)"
  shows "distinct (map snd rows)"
proof -
  have "distinct (map fst rows)" using assms(2) strict_sorted_iff by blast
  moreover have "map fst rows = map (\<lambda>item. the (key_at kp item)) (map snd rows)"
    using assms(1) by simp
  ultimately have "distinct (map (\<lambda>item. the (key_at kp item)) (map snd rows))"
    by simp
  then show ?thesis using distinct_map by blast
qed

subsection \<open>Opening, filling and clearing the database\<close>

lemma stores_created_fresh: "stores_created fresh_storage"
  by (simp add: stores_created_def fresh_storage_def STORES_def DB_VERSION_def)

lemma managed_store:
  "map_of STORES storeName = Some kp \<longleftrightarrow>
     (storeName = ''residents'' \<and> kp = ''id'') \<or> (storeName = ''evac_centers'' \<and> kp = ''id'') \<or>
     (storeName = ''metadata'' \<and> kp = ''key'')"
  by (auto simp: STORES_def)

lemma stores_after_upgrade:
  assumes "stores_created s"
  shows "stores_created (onupgradeneeded s \<lparr> db := True \<rparr>)"
  using assms
  by (auto simp: stores_created_def onupgradeneeded_def STORES_def create_if_missing_def DB_VERSION_def
           split: option.splits)

lemma openDB_ok:
  assumes "stores_created s" and "db s \<or> available"
  shows "\<exists>s1. openDB available s = Inr s1 \<and> db s1 \<and> stores_created s1"
proof (cases "db s")
  case True
  with assms show ?thesis by (simp add: openDB_def)
next
  case False
  with assms(2) have av: available by simp
  show ?thesis
  proof (cases "idb_version s < DB_VERSION")
    case True
    with False av stores_after_upgrade[OF assms(1)] show ?thesis by (simp add: openDB_def)
  next
    case v: False
    with assms(1) have "stores_created (s \<lparr> db := True \<rparr>)"
      by (auto simp: stores_created_def split: option.splits)
    moreover have "\<not> DB_VERSION < idb_version s"
      using assms(1) by (simp add: stores_created_def)
    ultimately show ?thesis using False av v by (simp add: openDB_def)
  qed
qed

lemma open_store_present:
  assumes "stores_created s" and "db s" and "map_of STORES storeName = Some kp"
  shows "\<exists>store. idb_stores s storeName = Some store \<and> keyPath store = kp"
proof -
  have "(storeName, kp) \<in> set STORES" using assms(3) by (rule map_of_SomeD)
  moreover have "DB_VERSION \<le> idb_version s" using assms(1,2) by (simp add: stores_created_def)
  ultimately show ?thesis using assms(1)
    by (fastforce simp: stores_created_def split: option.splits)
qed

lemma stores_created_update:
  assumes "stores_created s" and "idb_stores s storeName = Some store"
  shows "stores_created (s \<lparr> idb_stores := (idb_stores s)(storeName \<mapsto> store \<lparr> records := rows \<rparr>) \<rparr>)"
  using assms by (auto simp: stores_created_def split: option.splits)

lemma cacheData_any:
  assumes "stores_created s" and "db s \<or> available"
  shows "\<exists>r1 s1. cacheData available storeName items s = (r1, s1) \<and> db s1 \<and> stores_created s1"
proof -
  obtain s1 where o: "openDB available s = Inr s1" "db s1" "stores_created s1"
    using openDB_ok[OF assms] by blast
  show ?thesis
  proof (cases "idb_stores s1 storeName")
    case None
    with o show ?thesis by (simp add: cacheData_def)
  next
    case (Some store)
    obtain result rows where p: "put_each (keyPath store) items [] = (result, rows)"
      by (cases "put_each (keyPath store) items []")
    with o Some stores_created_update[OF o(3) Some, of rows] show ?thesis
      by (simp add: cacheData_def)
  qed
qed

lemma cacheData_ok:
  assumes "stores_created s" and "db s \<or> available" and "map_of STORES storeName = Some kp"
      and "\<forall>item\<in>set items. key_at kp item \<noteq> None" and "inj_on (key_at kp) (set items)"
  shows "\<exists>s1 store. cacheData available storeName items s = (Inr (), s1) \<and> db s1 \<and> stores_created s1 \<and>
           idb_stores s1 storeName = Some store \<and> keyPath store = kp \<and>
           set (map snd (records store)) = set items \<and>
           distinct (map snd (records store)) \<and>
           sorted_wrt (<) (map fst (records store)) \<and>
           (\<forall>p\<in>set (records store). key_at kp (snd p) = Some (fst p))"
proof -
  obtain s1 where o: "openDB available s = Inr s1" "db s1" "stores_created s1"
    using openDB_ok[OF assms(1,2)] by blast
  obtain store where st: "idb_stores s1 storeName = Some store" "keyPath store = kp"
    using open_store_present[OF o(3) o(2) assms(3)] by blast
  have "inj_on (key_at kp) (set items \<union> snd ` set [])" using assms(5) by simp
  from put_each_entities[OF assms(4) this]
  obtain rows where r: "put_each kp items [] = (Inr (), rows)"
      "snd ` set rows = set items \<union> snd ` set []"
      "\<forall>p\<in>set rows. key_at kp (snd p) = Some (fst p)"
      "sorted_wrt (<) (map fst rows)"
    by auto
  let ?s2 = "s1 \<lparr> idb_stores := (idb_stores s1)(storeName \<mapsto> store \<lparr> records := rows \<rparr>) \<rparr>"
  have "cacheData available storeName items s = (Inr (), ?s2)"
    using o(1) st r(1) by (simp add: cacheData_def)
  moreover have "db ?s2" using o(2) by simp
  moreover have "stores_created ?s2" using stores_created_update[OF o(3) st(1)] .
  moreover have "idb_stores ?s2 storeName = Some (store \<lparr> records := rows \<rparr>)" by simp
  moreover have "distinct (map snd rows)" using keyed_values_distinct[OF r(3,4)] .
  ultimately show ?thesis using st(2) r by auto
qed

lemma getCachedData_open:
  assumes "db s" and "idb_stores s storeName = Some store"
  shows "getCachedData available storeName s = (Inr (map snd (records store)), s)"
  using assms by (simp add: getCachedData_def openDB_def)

lemma clearCache_open:
  assumes "stores_created s" and "db s"
  shows "\<exists>s1. clearCache available s = (Inr (), s1) \<and> db s1 \<and> stores_created s1 \<and>
           (\<forall>name\<in>set (map fst STORES). \<exists>store. idb_stores s1 name = Some store \<and> records store = [])"
proof -
  have v: "DB_VERSION \<le> idb_version s" using assms by (simp add: stores_created_def)
  then obtain a b c where abc: "idb_stores s ''residents'' = Some a" "idb_stores s ''evac_centers'' = Some b"
      "idb_stores s ''metadata'' = Some c" "keyPath a = ''id''" "keyPath b = ''id''" "keyPath c = ''key''"
    using assms(1) by (auto simp: stores_created_def STORES_def split: option.splits)
  let ?s1 = "s \<lparr> idb_stores := foldl clear_store (idb_stores s) (map fst STORES) \<rparr>"
  have "clearCache available s = (Inr (), ?s1)"
    using assms(2) abc by (simp add: clearCache_def openDB_def STORES_def)
  moreover have "db ?s1" using assms(2) by simp
  moreover have "stores_created ?s1"
    using assms(1) abc v by (simp add: stores_created_def STORES_def clear_store_def)
  moreover have "\<forall>name\<in>set (map fst STORES). \<exists>store. idb_stores ?s1 name = Some store \<and> records store = []"
    using abc by (simp add: STORES_def clear_store_def)
  ultimately show ?thesis by blast
qed

section \<open>Properties of the status update page\<close>





lemma stored_rows_status:
  "stored_rows now n ins = Some rows \<Longrightarrow> map status rows = map ins_status ins"
  by (induction ins arbitrary: n rows) (auto split: option.splits jsval.splits)

lemma handleUpdateStatus_appends:
  assumes "handleUpdateStatus online checked now insert_ok (p, r) = (p', r')"
  shows "\<exists>rows. resident_status_log r' = resident_status_log r @ rows \<and>
           (\<forall>row\<in>set rows. status row = newStatus p) \<and>
           (newStatus p' = newStatus p \<or> newStatus p' = Safe)"
proof (cases "r' = r \<and> p' = p")
  case True
  then show ?thesis by simp
next
  case False
  then obtain selectedIds ev where i:
    "insert_status_logs insert_ok now (statusLogs_of selectedIds p ev) r = Some r'" "newStatus p' = Safe"
    using assms
    by (auto simp: handleUpdateStatus_def Let_def split: option.splits if_splits)
  then obtain rows where rows: "stored_rows now (int (length (resident_status_log r)) + 1) (statusLogs_of selectedIds p ev) = Some rows"
      "r' = r \<lparr> resident_status_log := resident_status_log r @ rows \<rparr>"
    by (auto simp: insert_status_logs_def split: if_splits option.splits)
  have "map status rows = map ins_status (statusLogs_of selectedIds p ev)"
    using stored_rows_status[OF rows(1)] .
  then have "map status rows = map (\<lambda>_. newStatus p) selectedIds"
    by (simp add: statusLogs_of_def comp_def)
  then have "\<forall>row\<in>set rows. status row = newStatus p"
    by (metis (no_types, lifting) ex_map_conv in_set_conv_nth length_map nth_map)
  with rows(2) i(2) show ?thesis by simp
qed

lemma loadInitialData_newStatus:
  "loadInitialData online available r s p = (res, s', p') \<Longrightarrow> newStatus p' = newStatus p"
  by (auto simp: loadInitialData_def Let_def split: option.splits prod.splits sum.splits if_splits)

lemma ui_step_writes:
  assumes "newStatus (the_page a) \<in> set newStatus_options"
  shows "newStatus (the_page (ui_step a e)) \<in> set newStatus_options \<and>
         (\<exists>rows. resident_status_log (the_remote (ui_step a e)) = resident_status_log (the_remote a) @ rows \<and>
            (\<forall>row\<in>set rows. status row \<in> set newStatus_options))"
proof (cases e)
  case (Connectivity online available)
  obtain res s p where l: "loadInitialData online available (the_remote a) (the_storage a) (the_page a) = (res, s, p)"
    by (cases "loadInitialData online available (the_remote a) (the_storage a) (the_page a)") auto
  with assms loadInitialData_newStatus[OF l] Connectivity show ?thesis by simp
next
  case (PickResident x)
  with assms show ?thesis by (simp add: handleSelectResident_def)
next
  case (Scan x)
  with assms show ?thesis by (simp add: handleScan_def handleSelectResident_def split: option.splits)
next
  case (ChooseStatus i)
  with assms show ?thesis by (simp add: onChange_newStatus_def)
next
  case (ChooseCenter c)
  with assms show ?thesis by simp
next
  case ClearForm
  with assms show ?thesis by simp
next
  case (Submit checked now insert_ok)
  obtain p r where h: "handleUpdateStatus (isOnline a) checked now insert_ok (the_page a, the_remote a) = (p, r)"
    by (cases "handleUpdateStatus (isOnline a) checked now insert_ok (the_page a, the_remote a)") auto
  from handleUpdateStatus_appends[OF h] obtain rows where
    "resident_status_log r = resident_status_log (the_remote a) @ rows"
    "\<forall>row\<in>set rows. status row = newStatus (the_page a)"
    "newStatus p = newStatus (the_page a) \<or> newStatus p = Safe" by blast
  with assms h Submit show ?thesis by (auto simp: newStatus_options_def)
qed

lemma ui_run_writes:
  assumes "newStatus (the_page a) \<in> set newStatus_options"
  shows "newStatus (the_page (ui_run a evs)) \<in> set newStatus_options \<and>
         (\<exists>rows. resident_status_log (the_remote (ui_run a evs)) = resident_status_log (the_remote a) @ rows \<and>
            (\<forall>row\<in>set rows. status row \<in> set newStatus_options))"
proof (induction evs rule: rev_induct)
  case Nil
  with assms show ?case by (simp add: ui_run_def)
next
  case (snoc e evs)
  then obtain rows where r: "newStatus (the_page (ui_run a evs)) \<in> set newStatus_options"
    "resident_status_log (the_remote (ui_run a evs)) = resident_status_log (the_remote a) @ rows"
    "\<forall>row\<in>set rows. status row \<in> set newStatus_options" by blast
  from ui_step_writes[OF r(1), of e] obtain rows' where r':
    "newStatus (the_page (ui_step (ui_run a evs) e)) \<in> set newStatus_options"
    "resident_status_log (the_remote (ui_step (ui_run a evs) e)) = resident_status_log (the_remote (ui_run a evs)) @ rows'"
    "\<forall>row\<in>set rows'. status row \<in> set newStatus_options" by blast
  have "ui_run a (evs @ [e]) = ui_step (ui_run a evs) e" by (simp add: ui_run_def)
  with r r' show ?case
    by (intro conjI exI[of _ "rows @ rows'"]) auto
qed

section \<open>The claims about the offline cache\<close>

text \<open>
  Claim C5. The database is in a state that the operations reach from a fresh browser and
  it can be opened; the collection is one of the three stores; the records are entities of
  the data model: each has a valid key at the store's key path, and no two different
  records share a key. Then \<open>cacheData\<close> succeeds, and \<open>getCachedData\<close> on that store
  returns the records that were put, as a set, each once and in ascending order of the
  keys. After \<open>clearCache\<close>, \<open>getCachedData\<close> returns the empty list for each of the three
  stores.
\<close>

theorem cache_round_trip:
  assumes "stores_created s" and "db s \<or> available"
      and "map_of STORES storeName = Some kp"
      and "\<forall>item\<in>set items. key_at kp item \<noteq> None"
      and "inj_on (key_at kp) (set items)"
  shows "\<exists>s1 s2 xs. cacheData available storeName items s = (Inr (), s1) \<and>
           getCachedData availableB storeName s1 = (Inr xs, s1) \<and>
           set xs = set items \<and> distinct xs \<and>
           sorted_wrt (<) (map (\<lambda>item. the (key_at kp item)) xs) \<and>
           clearCache availableC s1 = (Inr (), s2) \<and>
           (\<forall>name\<in>set (map fst STORES). getCachedData availableD name s2 = (Inr [], s2))"
proof -
  obtain s1 store where c: "cacheData available storeName items s = (Inr (), s1)" "db s1" "stores_created s1"
      "idb_stores s1 storeName = Some store" "set (map snd (records store)) = set items"
      "distinct (map snd (records store))"
      "sorted_wrt (<) (map fst (records store))" "\<forall>p\<in>set (records store). key_at kp (snd p) = Some (fst p)"
    using cacheData_ok[OF assms] by blast
  let ?xs = "map snd (records store)"
  have g: "getCachedData availableB storeName s1 = (Inr ?xs, s1)"
    using getCachedData_open[OF c(2,4)] .
  have "map (\<lambda>item. the (key_at kp item)) ?xs = map fst (records store)"
    using c(8) by simp
  then have srt: "sorted_wrt (<) (map (\<lambda>item. the (key_at kp item)) ?xs)"
    using c(7) by (simp only:)
  obtain s2 where cl: "clearCache availableC s1 = (Inr (), s2)" "db s2"
      "\<forall>name\<in>set (map fst STORES). \<exists>store. idb_stores s2 name = Some store \<and> records store = []"
    using clearCache_open[OF c(3,2)] by blast
  have "\<forall>name\<in>set (map fst STORES). getCachedData availableD name s2 = (Inr [], s2)"
  proof
    fix name assume "name \<in> set (map fst STORES)"
    then obtain st where "idb_stores s2 name = Some st" "records st = []" using cl(3) by blast
    then show "getCachedData availableD name s2 = (Inr [], s2)"
      using getCachedData_open[OF cl(2), of name st] by simp
  qed
  with c(1,5,6) g srt cl(1) show ?thesis by blast
qed

theorem cache_round_trip_witness:
  "stores_created fresh_storage \<and> (db fresh_storage \<or> True) \<and>
   map_of STORES ''residents'' = Some ''id'' \<and>
   list_all (\<lambda>item. key_at ''id'' item \<noteq> None) [cached_R2, cached_R1, cached_R2] \<and>
   inj_on (key_at ''id'') (set [cached_R2, cached_R1, cached_R2]) \<and>
   fst (getCachedData False ''residents''
          (snd (cacheData True ''residents'' [cached_R2, cached_R1, cached_R2] fresh_storage)))
     = Inr [cached_R1, cached_R2] \<and>
   (\<exists>s1 xs. cacheData True ''residents'' [cached_R2, cached_R1, cached_R2] fresh_storage = (Inr (), s1) \<and>
        getCachedData False ''residents'' s1 = (Inr xs, s1) \<and> set xs = {cached_R1, cached_R2})"
proof -
  have h1: "stores_created fresh_storage"
    by (simp add: stores_created_def fresh_storage_def STORES_def DB_VERSION_def)
  have h2: "db fresh_storage \<or> True" by simp
  have h3: "map_of STORES ''residents'' = Some ''id''" by (simp add: STORES_def)
  have h4: "\<forall>item\<in>set [cached_R2, cached_R1, cached_R2]. key_at ''id'' item \<noteq> None"
    by (simp add: key_at_def get_prop_def map_get_def)
  have h5: "inj_on (key_at ''id'') (set [cached_R2, cached_R1, cached_R2])"
    by (auto simp: inj_on_def key_at_def get_prop_def map_get_def)
  have v: "fst (getCachedData False ''residents''
          (snd (cacheData True ''residents'' [cached_R2, cached_R1, cached_R2] fresh_storage)))
     = Inr [cached_R1, cached_R2]"
    by code_simp
  from cache_round_trip[OF h1 h2 h3 h4 h5, where ?availableB = False]
  have "\<exists>s1 xs. cacheData True ''residents'' [cached_R2, cached_R1, cached_R2] fresh_storage = (Inr (), s1) \<and>
        getCachedData False ''residents'' s1 = (Inr xs, s1) \<and> set xs = set [cached_R2, cached_R1, cached_R2]"
    by blast
  then have "\<exists>s1 xs. cacheData True ''residents'' [cached_R2, cached_R1, cached_R2] fresh_storage = (Inr (), s1) \<and>
        getCachedData False ''residents'' s1 = (Inr xs, s1) \<and> set xs = {cached_R1, cached_R2}"
    by (simp add: insert_commute)
  moreover have "list_all (\<lambda>item. key_at ''id'' item \<noteq> None) [cached_R2, cached_R1, cached_R2]"
    using h4 by (simp only: list_all_iff)
  ultimately show ?thesis using h1 h2 h3 h5 v by blast
qed

text \<open>
  Claim C6. Under the same conditions on the store and on the records \<open>B\<close>, and whatever
  the list \<open>A\<close> is, \<open>cacheData\<close> of \<open>A\<close> and then of \<open>B\<close> leaves the store with the
  records of \<open>B\<close>, each once, and nothing of \<open>A\<close>.
\<close>

theorem cache_replace:
  assumes "stores_created s" and "db s \<or> available"
      and "map_of STORES storeName = Some kp"
      and "\<forall>item\<in>set B. key_at kp item \<noteq> None"
      and "inj_on (key_at kp) (set B)"
  shows "\<exists>r1 s1 s2 xs. cacheData available storeName A s = (r1, s1) \<and>
           cacheData availableB storeName B s1 = (Inr (), s2) \<and>
           getCachedData availableC storeName s2 = (Inr xs, s2) \<and>
           set xs = set B \<and> distinct xs"
proof -
  obtain r1 s1 where a: "cacheData available storeName A s = (r1, s1)" "db s1" "stores_created s1"
    using cacheData_any[OF assms(1,2)] by blast
  have "db s1 \<or> availableB" using a(2) by simp
  from cacheData_ok[OF a(3) this assms(3,4,5)]
  obtain s2 store where c: "cacheData availableB storeName B s1 = (Inr (), s2)" "db s2"
      "idb_stores s2 storeName = Some store" "set (map snd (records store)) = set B"
      "distinct (map snd (records store))"
    by blast
  have g: "getCachedData availableC storeName s2 = (Inr (map snd (records store)), s2)"
    using getCachedData_open[OF c(2,3)] .
  with a(1) c(1,4,5) show ?thesis by blast
qed

theorem cache_replace_witness:
  "stores_created fresh_storage \<and> (db fresh_storage \<or> True) \<and>
   map_of STORES ''residents'' = Some ''id'' \<and>
   list_all (\<lambda>item. key_at ''id'' item \<noteq> None) [cached_R3] \<and>
   inj_on (key_at ''id'') (set [cached_R3]) \<and>
   fst (getCachedData False ''residents''
          (snd (cacheData False ''residents'' [cached_R3]
             (snd (cacheData True ''residents'' [cached_R1, cached_R2] fresh_storage)))))
     = Inr [cached_R3] \<and>
   (\<exists>r1 s1 s2 xs. cacheData True ''residents'' [cached_R1, cached_R2] fresh_storage = (r1, s1) \<and>
        cacheData False ''residents'' [cached_R3] s1 = (Inr (), s2) \<and>
        getCachedData False ''residents'' s2 = (Inr xs, s2) \<and> set xs = {cached_R3})"
proof -
  have h1: "stores_created fresh_storage"
    by (simp add: stores_created_def fresh_storage_def STORES_def DB_VERSION_def)
  have h2: "db fresh_storage \<or> True" by simp
  have h3: "map_of STORES ''residents'' = Some ''id''" by (simp add: STORES_def)
  have h4: "\<forall>item\<in>set [cached_R3]. key_at ''id'' item \<noteq> None"
    by (simp add: key_at_def get_prop_def map_get_def)
  have h5: "inj_on (key_at ''id'') (set [cached_R3])" by simp
  have v: "fst (getCachedData False ''residents''
          (snd (cacheData False ''residents'' [cached_R3]
             (snd (cacheData True ''residents'' [cached_R1, cached_R2] fresh_storage)))))
     = Inr [cached_R3]"
    by code_simp
  from cache_replace[OF h1 h2 h3 h4 h5, where A = "[cached_R1, cached_R2]" and ?availableB = False and ?availableC = False]
  have "\<exists>r1 s1 s2 xs. cacheData True ''residents'' [cached_R1, cached_R2] fresh_storage = (r1, s1) \<and>
        cacheData False ''residents'' [cached_R3] s1 = (Inr (), s2) \<and>
        getCachedData False ''residents'' s2 = (Inr xs, s2) \<and> set xs = set [cached_R3]"
    by blast
  then have "\<exists>r1 s1 s2 xs. cacheData True ''residents'' [cached_R1, cached_R2] fresh_storage = (r1, s1) \<and>
        cacheData False ''residents'' [cached_R3] s1 = (Inr (), s2) \<and>
        getCachedData False ''residents'' s2 = (Inr xs, s2) \<and> set xs = {cached_R3}"
    by simp
  moreover have "list_all (\<lambda>item. key_at ''id'' item \<noteq> None) [cached_R3]"
    using h4 by (simp only: list_all_iff)
  ultimately show ?thesis using h1 h2 h3 h5 v by blast
qed

section \<open>The claims about the status update page\<close>



text \<open>
  Claim C9. \<open>handleUpdateStatus\<close> is the one operation that inserts into
  \<^verbatim>\<open>resident_status_log\<close>. Starting from the page as it is mounted, and whatever the
  user and the network do, the log only grows, and every row that is appended has one of
  the five statuses that the form offers, never \<open>Unknown\<close>.
\<close>

theorem unknown_never_written:
  "\<exists>rows. resident_status_log
             (the_remote (ui_run \<lparr> isOnline = online, the_page = initial_page, the_remote = r, the_storage = s \<rparr> evs))
           = resident_status_log r @ rows \<and>
          (\<forall>row\<in>set rows. status row \<in> {Safe, Evacuated, Injured, Missing, Deceased} \<and> status row \<noteq> Unknown)"
proof -
  let ?a = "\<lparr> isOnline = online, the_page = initial_page, the_remote = r, the_storage = s \<rparr>"
  have "newStatus (the_page ?a) \<in> set newStatus_options"
    by (simp add: initial_page_def newStatus_options_def)
  from ui_run_writes[OF this, of evs] obtain rows where
    rows: "resident_status_log (the_remote (ui_run ?a evs)) = resident_status_log (the_remote ?a) @ rows"
          "\<forall>row\<in>set rows. status row \<in> set newStatus_options"
    by blast
  have "\<forall>row\<in>set rows. status row \<in> {Safe, Evacuated, Injured, Missing, Deceased} \<and> status row \<noteq> Unknown"
  proof
    fix row assume "row \<in> set rows"
    with rows(2) have "status row \<in> set newStatus_options" by blast
    then show "status row \<in> {Safe, Evacuated, Injured, Missing, Deceased} \<and> status row \<noteq> Unknown"
      by (auto simp: newStatus_options_def)
  qed
  with rows(1) show ?thesis by auto
qed

theorem unknown_never_written_witness:
  "resident_status_log
     (the_remote (ui_run \<lparr> isOnline = True, the_page = initial_page, the_remote = sample_remote,
                           the_storage = fresh_storage \<rparr>
        [Connectivity True True, Scan ''R1'', ChooseStatus 1, ChooseCenter ''C1'',
         Submit [''R1'', ''R3''] 5000 True]))
     = sample_log @
       [\<lparr> resident_id = ''R1'', status = Evacuated, timestamp = 5000, evac_center_id = Some ''C1'',
          log_id = 5, event_id = ''E1'' \<rparr>,
        \<lparr> resident_id = ''R3'', status = Evacuated, timestamp = 5000, evac_center_id = Some ''C1'',
          log_id = 6, event_id = ''E1'' \<rparr>] \<and>
   (\<exists>rows. resident_status_log
     (the_remote (ui_run \<lparr> isOnline = True, the_page = initial_page, the_remote = sample_remote,
                           the_storage = fresh_storage \<rparr>
        [Connectivity True True, Scan ''R1'', ChooseStatus 1, ChooseCenter ''C1'',
         Submit [''R1'', ''R3''] 5000 True]))
       = resident_status_log sample_remote @ rows \<and>
      (\<forall>row\<in>set rows. status row \<in> {Safe, Evacuated, Injured, Missing, Deceased} \<and> status row \<noteq> Unknown))"
proof -
  have v: "resident_status_log
     (the_remote (ui_run \<lparr> isOnline = True, the_page = initial_page, the_remote = sample_remote,
                           the_storage = fresh_storage \<rparr>
        [Connectivity True True, Scan ''R1'', ChooseStatus 1, ChooseCenter ''C1'',
         Submit [''R1'', ''R3''] 5000 True]))
     = sample_log @
       [\<lparr> resident_id = ''R1'', status = Evacuated, timestamp = 5000, evac_center_id = Some ''C1'',
          log_id = 5, event_id = ''E1'' \<rparr>,
        \<lparr> resident_id = ''R3'', status = Evacuated, timestamp = 5000, evac_center_id = Some ''C1'',
          log_id = 6, event_id = ''E1'' \<rparr>]"
    by code_simp
  from unknown_never_written[of True sample_remote fresh_storage
         "[Connectivity True True, Scan ''R1'', ChooseStatus 1, ChooseCenter ''C1'',
           Submit [''R1'', ''R3''] 5000 True]"] v
  show ?thesis by blast
qed


end
